theory Spec2Isabelle
  imports Complex_Main
begin

text \<open>
  The client-side validation module of the calculator: \<open>isValidNumber\<close>,
  \<open>isValidOperationType\<close>, \<open>parseInputNumbers\<close>, \<open>validateCalculationInputs\<close>,
  \<open>validateInputField\<close> and \<open>calculateResult\<close>, with the parts of JavaScript they
  rest on: numbers, strings, \<open>parseFloat\<close>, truthiness and method calls that can raise
  a TypeError.
\<close>

section \<open>JavaScript numbers\<close>

text \<open>
  A Number is NaN, an infinity, negative zero, or a finite value \<open>Fin q\<close>; \<open>Fin 0\<close> is
  positive zero. A literal or an arithmetic result whose magnitude reaches the binary64
  overflow threshold becomes an infinity, one at or below half the smallest subnormal
  becomes a zero of the right sign. Between these thresholds \<open>Fin q\<close> keeps the exact
  rational: the rounding of the significand to 53 bits is not part of this model.
\<close>

datatype jsnum = NaN | PInf | NInf | NegZero | Fin rat

definition overflow_threshold :: rat where
  "overflow_threshold = 2 ^ 1024 - 2 ^ 970"

definition underflow_threshold :: rat where
  "underflow_threshold = 1 / 2 ^ 1075"

definition infinity :: "bool \<Rightarrow> jsnum" where
  "infinity neg = (if neg then NInf else PInf)"

definition zero :: "bool \<Rightarrow> jsnum" where
  "zero neg = (if neg then NegZero else Fin 0)"

text \<open>The Number for a sign and a magnitude \<open>m \<ge> 0\<close>.\<close>

definition to_number :: "bool \<Rightarrow> rat \<Rightarrow> jsnum" where
  "to_number neg m =
     (if overflow_threshold \<le> m then infinity neg
      else if m \<le> underflow_threshold then zero neg
      else Fin (if neg then - m else m))"

definition isNaN :: "jsnum \<Rightarrow> bool" where
  "isNaN n = (n = NaN)"

definition is_inf :: "jsnum \<Rightarrow> bool" where
  "is_inf n = (n = PInf \<or> n = NInf)"

definition isFinite :: "jsnum \<Rightarrow> bool" where
  "isFinite n = (\<not> isNaN n \<and> \<not> is_inf n)"

text \<open>\<open>n === 0\<close>: strict equality does not tell the two zeros apart.\<close>

definition is_zero :: "jsnum \<Rightarrow> bool" where
  "is_zero n = (n = Fin 0 \<or> n = NegZero)"

fun is_neg :: "jsnum \<Rightarrow> bool" where
  "is_neg NInf = True"
| "is_neg NegZero = True"
| "is_neg (Fin q) = (q < 0)"
| "is_neg _ = False"

fun mag :: "jsnum \<Rightarrow> rat" where
  "mag (Fin q) = \<bar>q\<bar>"
| "mag _ = 0"

fun jneg :: "jsnum \<Rightarrow> jsnum" where
  "jneg NaN = NaN"
| "jneg PInf = NInf"
| "jneg NInf = PInf"
| "jneg NegZero = Fin 0"
| "jneg (Fin q) = (if q = 0 then NegZero else Fin (- q))"

text \<open>\<open>a + b\<close>. An exact zero sum of finite operands is positive zero unless both are
  negative zero.\<close>

definition jadd :: "jsnum \<Rightarrow> jsnum \<Rightarrow> jsnum" where
  "jadd a b =
     (if isNaN a \<or> isNaN b then NaN
      else if is_inf a then (if is_inf b \<and> a \<noteq> b then NaN else a)
      else if is_inf b then b
      else if a = NegZero then b
      else if b = NegZero then a
      else (case (a, b) of
              (Fin x, Fin y) \<Rightarrow> to_number (x + y < 0) \<bar>x + y\<bar>
            | _ \<Rightarrow> NaN))"

definition jsub :: "jsnum \<Rightarrow> jsnum \<Rightarrow> jsnum" where
  "jsub a b = jadd a (jneg b)"

definition jmul :: "jsnum \<Rightarrow> jsnum \<Rightarrow> jsnum" where
  "jmul a b =
     (if isNaN a \<or> isNaN b then NaN
      else if (is_inf a \<and> is_zero b) \<or> (is_zero a \<and> is_inf b) then NaN
      else if is_inf a \<or> is_inf b then infinity (is_neg a \<noteq> is_neg b)
      else to_number (is_neg a \<noteq> is_neg b) (mag a * mag b))"

definition jdiv :: "jsnum \<Rightarrow> jsnum \<Rightarrow> jsnum" where
  "jdiv a b =
     (if isNaN a \<or> isNaN b then NaN
      else if (is_inf a \<and> is_inf b) \<or> (is_zero a \<and> is_zero b) then NaN
      else if is_inf a \<or> is_zero b then infinity (is_neg a \<noteq> is_neg b)
      else if is_inf b then zero (is_neg a \<noteq> is_neg b)
      else to_number (is_neg a \<noteq> is_neg b) (mag a / mag b))"

section \<open>Strings\<close>

text \<open>
  A string is a list of characters, each standing for a UTF-16 code unit below 256.
\<close>

definition is_digit :: "char \<Rightarrow> bool" where
  "is_digit c = (c \<in> set ''0123456789'')"

definition digit_val :: "char \<Rightarrow> nat" where
  "digit_val c = of_char c - 48"

definition digits_val :: "string \<Rightarrow> nat" where
  "digits_val ds = foldl (\<lambda>n c. 10 * n + digit_val c) 0 ds"

text \<open>White space and line terminators: TAB, LF, VT, FF, CR, space, no-break space.\<close>

definition is_ws :: "char \<Rightarrow> bool" where
  "is_ws c = (c \<in> set [CHR 0x09, CHR 0x0A, CHR 0x0B, CHR 0x0C, CHR 0x0D, CHR '' '', CHR 0xA0])"

definition trim :: "string \<Rightarrow> string" where
  "trim s = rev (dropWhile is_ws (rev (dropWhile is_ws s)))"

text \<open>\<open>s.split(',')\<close>: the empty string splits into one empty segment.\<close>

fun split_comma :: "string \<Rightarrow> string list" where
  "split_comma [] = [[]]"
| "split_comma (c # cs) =
     (if c = CHR '','' then [] # split_comma cs
      else (case split_comma cs of
              [] \<Rightarrow> [[c]]
            | p # ps \<Rightarrow> (c # p) # ps))"

text \<open>\<open>parts.join(sep)\<close>.\<close>

fun join :: "string \<Rightarrow> string list \<Rightarrow> string" where
  "join sep [] = []"
| "join sep [p] = p"
| "join sep (p # q # ps) = p @ sep @ join sep (q # ps)"

definition lower_char :: "char \<Rightarrow> char" where
  "lower_char c =
     (let n = (of_char c :: nat)
      in if (65 \<le> n \<and> n \<le> 90) \<or> (192 \<le> n \<and> n \<le> 222 \<and> n \<noteq> 215)
         then char_of (n + 32) else c)"

definition toLowerCase :: "string \<Rightarrow> string" where
  "toLowerCase s = map lower_char s"

text \<open>Decimal rendering of an array length in a template literal.\<close>

fun string_of_nat :: "nat \<Rightarrow> string" where
  "string_of_nat n =
     (if n < 10 then [char_of (48 + n)]
      else string_of_nat (n div 10) @ [char_of (48 + n mod 10)])"

section \<open>parseFloat\<close>

text \<open>
  \<open>parseFloat\<close> skips leading white space and reads the longest prefix that is a
  decimal literal: an optional sign, then \<open>Infinity\<close> or digits with an optional
  fraction and an optional exponent part. With no such prefix the result is NaN.
\<close>

definition strip_sign :: "string \<Rightarrow> bool \<times> string" where
  "strip_sign s =
     (case s of
        [] \<Rightarrow> (False, [])
      | c # cs \<Rightarrow> if c = CHR ''-'' then (True, cs)
                  else if c = CHR ''+'' then (False, cs)
                  else (False, s))"

text \<open>The value of an exponent part at the head of the string, 0 when there is none.\<close>

definition parse_exponent :: "string \<Rightarrow> int" where
  "parse_exponent s =
     (case s of
        [] \<Rightarrow> 0
      | c # cs \<Rightarrow>
          if c = CHR ''e'' \<or> c = CHR ''E'' then
            (let (neg, r) = strip_sign cs; ds = takeWhile is_digit r
             in if ds = [] then 0
                else if neg then - int (digits_val ds) else int (digits_val ds))
          else 0)"

definition pow10 :: "int \<Rightarrow> rat" where
  "pow10 e = (if 0 \<le> e then 10 ^ nat e else 1 / 10 ^ nat (- e))"

definition parseFloat :: "string \<Rightarrow> jsnum" where
  "parseFloat str =
     (let (neg, s) = strip_sign (dropWhile is_ws str)
      in if take 8 s = ''Infinity'' then infinity neg
         else
           let ip = takeWhile is_digit s;
               r1 = dropWhile is_digit s;
               has_dot = (r1 \<noteq> [] \<and> hd r1 = CHR ''.'');
               fp = (if has_dot then takeWhile is_digit (tl r1) else []);
               r2 = (if has_dot then dropWhile is_digit (tl r1) else r1)
           in if ip = [] \<and> fp = [] then NaN
              else to_number neg
                     (of_nat (digits_val (ip @ fp)) * pow10 (parse_exponent r2 - int (length fp))))"

definition isValidNumber :: "string \<Rightarrow> bool" where
  "isValidNumber v = (let num = parseFloat v in \<not> isNaN num \<and> isFinite num)"

section \<open>Values and method calls\<close>

text \<open>
  The primitive values an argument of the validators can hold. A method call on a value
  that has no such method raises a TypeError; \<open>v?.m()\<close> yields \<open>undefined\<close> for a
  nullish \<open>v\<close> and is the plain call otherwise.
\<close>

datatype jsval = JUndefined | JNull | JBool bool | JNum jsnum | JStr string

datatype js_error = TypeError

fun truthy :: "jsval \<Rightarrow> bool" where
  "truthy JUndefined = False"
| "truthy JNull = False"
| "truthy (JBool b) = b"
| "truthy (JNum n) = (\<not> isNaN n \<and> \<not> is_zero n)"
| "truthy (JStr s) = (s \<noteq> [])"

fun typeof :: "jsval \<Rightarrow> string" where
  "typeof JUndefined = ''undefined''"
| "typeof JNull = ''object''"
| "typeof (JBool b) = ''boolean''"
| "typeof (JNum n) = ''number''"
| "typeof (JStr s) = ''string''"

text \<open>\<open>v.toLowerCase()\<close>\<close>

fun call_toLowerCase :: "jsval \<Rightarrow> js_error + string" where
  "call_toLowerCase (JStr s) = Inr (toLowerCase s)"
| "call_toLowerCase v = Inl TypeError"

text \<open>\<open>v?.toLowerCase()\<close>\<close>

fun opt_toLowerCase :: "jsval \<Rightarrow> js_error + jsval" where
  "opt_toLowerCase JUndefined = Inr JUndefined"
| "opt_toLowerCase JNull = Inr JUndefined"
| "opt_toLowerCase v = (case call_toLowerCase v of Inl e \<Rightarrow> Inl e | Inr s \<Rightarrow> Inr (JStr s))"

text \<open>\<open>v.split(',')\<close>\<close>

fun call_split :: "jsval \<Rightarrow> js_error + string list" where
  "call_split (JStr s) = Inr (split_comma s)"
| "call_split v = Inl TypeError"

section \<open>The validation module\<close>

definition EMPTY_FIELD :: string where
  "EMPTY_FIELD = ''This field is required''"

definition INVALID_NUMBER :: string where
  "INVALID_NUMBER = ''Please enter a valid number''"

definition INVALID_OPERATION :: string where
  "INVALID_OPERATION = ''Please select a valid operation type''"

definition INSUFFICIENT_INPUTS :: string where
  "INSUFFICIENT_INPUTS = ''At least two numbers are required for a calculation''"

definition DIVISION_BY_ZERO :: string where
  "DIVISION_BY_ZERO = ''Cannot divide by zero''"

definition EMPTY_INPUTS :: string where
  "EMPTY_INPUTS = ''Please enter at least two numbers separated by commas''"

definition INVALID_INPUT_FORMAT :: string where
  "INVALID_INPUT_FORMAT = ''Invalid input format. Please use comma-separated numbers''"

definition NO_VALID_NUMBERS :: string where
  "NO_VALID_NUMBERS = ''No valid numbers found in the input''"

definition VALID_OPERATION_TYPES :: "string list" where
  "VALID_OPERATION_TYPES = [''addition'', ''subtraction'', ''multiplication'', ''division'']"

text \<open>\<open>VALID_OPERATION_TYPES.includes(type?.toLowerCase())\<close>\<close>

definition isValidOperationType :: "jsval \<Rightarrow> js_error + bool" where
  "isValidOperationType type =
     (case opt_toLowerCase type of
        Inl e \<Rightarrow> Inl e
      | Inr v \<Rightarrow> Inr (v \<in> set (map JStr VALID_OPERATION_TYPES)))"

text \<open>
  The object \<open>parseInputNumbers\<close> returns. An absent \<open>error\<close> is \<open>JUndefined\<close>, an
  absent \<open>warning\<close> is \<open>False\<close>.
\<close>

record ParseResult =
  numbers :: "jsnum list"
  p_isValid :: bool
  p_error :: jsval
  p_warning :: bool

text \<open>The body of the \<open>forEach\<close> over the parts: one step on the two arrays.\<close>

definition classify_part :: "jsnum list \<times> string list \<Rightarrow> string \<Rightarrow> jsnum list \<times> string list" where
  "classify_part acc part =
     (case acc of (nums, invalidParts) \<Rightarrow>
        if isValidNumber part then (nums @ [parseFloat part], invalidParts)
        else (nums, invalidParts @ [part]))"

definition parseInputNumbers :: "jsval \<Rightarrow> js_error + ParseResult" where
  "parseInputNumbers inputString =
     (if \<not> truthy inputString \<or> typeof inputString \<noteq> ''string'' then
        Inr \<lparr>numbers = [], p_isValid = False, p_error = JStr EMPTY_INPUTS, p_warning = False\<rparr>
      else
        (case call_split inputString of
           Inl e \<Rightarrow> Inl e
         | Inr segments \<Rightarrow>
             let parts = filter (\<lambda>s. length s > 0) (map trim segments)
             in if length parts = 0 then
                  Inr \<lparr>numbers = [], p_isValid = False, p_error = JStr EMPTY_INPUTS,
                       p_warning = False\<rparr>
                else
                  (case foldl classify_part ([], []) parts of (nums, invalidParts) \<Rightarrow>
                     if length nums = 0 then
                       Inr \<lparr>numbers = [], p_isValid = False,
                            p_error = JStr INVALID_INPUT_FORMAT, p_warning = False\<rparr>
                     else if length invalidParts > 0 then
                       Inr \<lparr>numbers = nums, p_isValid = False,
                            p_error = JStr (''Invalid numbers detected: '' @
                                           join '', '' invalidParts @
                                           ''. These will be ignored.''),
                            p_warning = True\<rparr>
                     else
                       Inr \<lparr>numbers = nums, p_isValid = True, p_error = JUndefined,
                            p_warning = False\<rparr>)))"

text \<open>The normalized request stored in \<open>data\<close>: its fields \<open>type\<close> and \<open>inputs\<close>.\<close>

record CalculationData =
  data_type :: string
  data_inputs :: "jsnum list"

text \<open>
  The result object of \<open>validateInputField\<close>; \<open>validateCalculationInputs\<close> returns
  the same fields and \<open>data\<close> (\<open>None\<close> is \<open>null\<close>).
\<close>

record FieldResult =
  isValid :: bool
  errors :: "jsval list"
  warnings :: "jsval list"

record ValidationResult = FieldResult +
  data :: "CalculationData option"

text \<open>\<open>result.errors.push(msg); result.isValid = false\<close>\<close>

definition fail_with :: "jsval \<Rightarrow> ('a FieldResult_scheme) \<Rightarrow> ('a FieldResult_scheme)" where
  "fail_with msg result = result\<lparr>errors := errors result @ [msg], isValid := False\<rparr>"

definition validateCalculationInputs :: "jsval \<Rightarrow> jsval \<Rightarrow> js_error + ValidationResult" where
  "validateCalculationInputs operationType inputsString =
     (let result = \<lparr>isValid = True, errors = [], warnings = [], data = None\<rparr>
      in case (if \<not> truthy operationType then
                 Inr (fail_with (JStr ''Operation type is required'') result)
               else (case isValidOperationType operationType of
                       Inl e \<Rightarrow> Inl e
                     | Inr ok \<Rightarrow> if \<not> ok then Inr (fail_with (JStr INVALID_OPERATION) result)
                                else Inr result)) of
           Inl e \<Rightarrow> Inl e
         | Inr result \<Rightarrow>
             (case parseInputNumbers inputsString of
                Inl e \<Rightarrow> Inl e
              | Inr parseResult \<Rightarrow>
                  if \<not> p_isValid parseResult then
                    Inr (fail_with (p_error parseResult) result)
                  else
                    let result = (if p_warning parseResult
                                  then result\<lparr>warnings := warnings result @ [p_error parseResult]\<rparr>
                                  else result)
                    in if length (numbers parseResult) < 2 then
                         Inr (fail_with (JStr INSUFFICIENT_INPUTS) result)
                       else
                         (case opt_toLowerCase operationType of
                            Inl e \<Rightarrow> Inl e
                          | Inr lowered \<Rightarrow>
                              let result =
                                (if lowered = JStr ''division'' then
                                   (let divisors = drop 1 (numbers parseResult)
                                    in if list_ex is_zero divisors
                                       then fail_with (JStr DIVISION_BY_ZERO) result
                                       else result)
                                 else result)
                              in if isValid result then
                                   (case call_toLowerCase operationType of
                                      Inl e \<Rightarrow> Inl e
                                    | Inr t \<Rightarrow>
                                        Inr (result\<lparr>data :=
                                               Some \<lparr>data_type = t, data_inputs = numbers parseResult\<rparr>\<rparr>))
                                 else Inr result)))"

text \<open>The input element, read through its \<open>value\<close> only.\<close>

record InputElement =
  el_value :: string

definition validateInputField :: "InputElement \<Rightarrow> js_error + FieldResult" where
  "validateInputField inputElement =
     (let v = trim (el_value inputElement);
          result = \<lparr>isValid = True, errors = [], warnings = []\<rparr>
      in if v = [] then Inr result
         else
           (case parseInputNumbers (JStr v) of
              Inl e \<Rightarrow> Inl e
            | Inr parseResult \<Rightarrow>
                if \<not> p_isValid parseResult then
                  Inr (result\<lparr>isValid := False, errors := errors result @ [p_error parseResult]\<rparr>)
                else
                  let result = (if p_warning parseResult
                                then result\<lparr>warnings := warnings result @ [p_error parseResult]\<rparr>
                                else result)
                  in if length (numbers parseResult) < 2 then
                       Inr (result\<lparr>warnings := warnings result @
                              [JStr (string_of_nat (length (numbers parseResult)) @
                                     '' number(s) found. At least 2 are required.'')]\<rparr>)
                     else Inr result))"

text \<open>\<open>xs.reduce(f, init)\<close> and \<open>xs.some(p)\<close> with callbacks that read the index.\<close>

fun reduce_idx :: "('a \<Rightarrow> 'b \<Rightarrow> nat \<Rightarrow> 'a) \<Rightarrow> 'a \<Rightarrow> nat \<Rightarrow> 'b list \<Rightarrow> 'a" where
  "reduce_idx f acc i [] = acc"
| "reduce_idx f acc i (x # xs) = reduce_idx f (f acc x i) (Suc i) xs"

fun some_idx :: "('a \<Rightarrow> nat \<Rightarrow> bool) \<Rightarrow> nat \<Rightarrow> 'a list \<Rightarrow> bool" where
  "some_idx p i [] = False"
| "some_idx p i (x # xs) = (p x i \<or> some_idx p (Suc i) xs)"

text \<open>The message of the TypeError a failed method call raises, as V8 words it.\<close>

definition error_message :: "js_error \<Rightarrow> string" where
  "error_message e = ''type?.toLowerCase is not a function''"

text \<open>
  \<open>inputs\<close> is \<open>None\<close> for a nullish argument. The \<open>try\<close> block can fail only in the
  method call of the \<open>switch\<close> head, and the \<open>catch\<close> turns that into a string.
\<close>

definition calculateResult :: "jsval \<Rightarrow> jsnum list option \<Rightarrow> jsval" where
  "calculateResult type inputs =
     (case inputs of
        None \<Rightarrow> JNull
      | Some xs \<Rightarrow>
          if length xs < 2 then JNull
          else
            (case opt_toLowerCase type of
               Inl e \<Rightarrow> JStr (''Error: '' @ error_message e)
             | Inr t \<Rightarrow>
                 if t = JStr ''addition'' then
                   JNum (reduce_idx (\<lambda>a b i. jadd a b) (Fin 0) 0 xs)
                 else if t = JStr ''subtraction'' then
                   JNum (reduce_idx (\<lambda>a b i. if i = 0 then a else jsub a b) (xs ! 0) 0 xs)
                 else if t = JStr ''multiplication'' then
                   JNum (reduce_idx (\<lambda>a b i. jmul a b) (Fin 1) 0 xs)
                 else if t = JStr ''division'' then
                   (if some_idx (\<lambda>v i. i > 0 \<and> is_zero v) 0 xs then JStr ''Cannot divide by zero''
                    else JNum (reduce_idx (\<lambda>a b i. if i = 0 then a else jdiv a b) (xs ! 0) 0 xs))
                 else JStr ''Unknown operation''))"

section \<open>Reference definitions\<close>

text \<open>
  The evaluator as the specification words it, for a lowercase operation name and an
  operand list: folds from the left, \<open>no result\<close> below two operands, a domain error on a
  zero divisor, an error for any other name.
\<close>

definition evaluate_spec :: "string \<Rightarrow> jsnum list \<Rightarrow> jsval" where
  "evaluate_spec operation operands =
     (if length operands < 2 then JNull
      else if operation = ''addition'' then JNum (foldl jadd (Fin 0) operands)
      else if operation = ''subtraction'' then JNum (foldl jsub (hd operands) (tl operands))
      else if operation = ''multiplication'' then JNum (foldl jmul (Fin 1) operands)
      else if operation = ''division'' then
        (if list_ex is_zero (tl operands) then JStr ''Cannot divide by zero''
         else JNum (foldl jdiv (hd operands) (tl operands)))
      else JStr ''Unknown operation'')"

text \<open>An argument that is a string or absent.\<close>

fun string_or_absent :: "jsval \<Rightarrow> bool" where
  "string_or_absent JUndefined = True"
| "string_or_absent JNull = True"
| "string_or_absent (JStr s) = True"
| "string_or_absent v = False"

text \<open>The tokens of an operand string: its trimmed, non-empty comma-separated parts.\<close>

definition tokens :: "string \<Rightarrow> string list" where
  "tokens s = filter (\<lambda>p. length p > 0) (map trim (split_comma s))"

text \<open>
  A decimal literal \<open>[-]digits[.digits][e[-]digits]\<close>, the token that writes it and the
  magnitude it denotes.
\<close>

record decimal_literal =
  negative :: bool
  int_digits :: string
  frac_digits :: "string option"
  exponent :: "(bool \<times> string) option"

definition well_formed :: "decimal_literal \<Rightarrow> bool" where
  "well_formed l =
     (int_digits l \<noteq> [] \<and> list_all is_digit (int_digits l) \<and>
      (case frac_digits l of None \<Rightarrow> True | Some f \<Rightarrow> list_all is_digit f) \<and>
      (case exponent l of None \<Rightarrow> True | Some (neg, ds) \<Rightarrow> ds \<noteq> [] \<and> list_all is_digit ds))"

definition fraction_part :: "string option \<Rightarrow> string" where
  "fraction_part fr = (case fr of None \<Rightarrow> [] | Some f \<Rightarrow> ''.'' @ f)"

definition fraction_digits :: "string option \<Rightarrow> string" where
  "fraction_digits fr = (case fr of None \<Rightarrow> [] | Some f \<Rightarrow> f)"

definition exponent_part :: "(bool \<times> string) option \<Rightarrow> string" where
  "exponent_part ex =
     (case ex of None \<Rightarrow> [] | Some (neg, ds) \<Rightarrow> ''e'' @ (if neg then ''-'' else []) @ ds)"

definition exponent_value :: "(bool \<times> string) option \<Rightarrow> int" where
  "exponent_value ex =
     (case ex of
        None \<Rightarrow> 0
      | Some (neg, ds) \<Rightarrow> if neg then - int (digits_val ds) else int (digits_val ds))"

definition render :: "decimal_literal \<Rightarrow> string" where
  "render l =
     (if negative l then ''-'' else []) @ int_digits l @ fraction_part (frac_digits l) @
     exponent_part (exponent l)"

definition lit_value :: "decimal_literal \<Rightarrow> rat" where
  "lit_value l =
     of_nat (digits_val (int_digits l @ fraction_digits (frac_digits l))) *
     pow10 (exponent_value (exponent l) - int (length (fraction_digits (frac_digits l))))"

text \<open>A character that cannot continue a decimal literal.\<close>

definition non_numeric :: "char \<Rightarrow> bool" where
  "non_numeric c = (\<not> is_digit c \<and> c \<noteq> CHR ''.'' \<and> c \<noteq> CHR ''e'' \<and> c \<noteq> CHR ''E'')"

text \<open>The string starts with an exponent part: \<open>e\<close> or \<open>E\<close>, an optional sign, a digit.\<close>

definition starts_exponent :: "string \<Rightarrow> bool" where
  "starts_exponent r =
     (case r of
        [] \<Rightarrow> False
      | c # cs \<Rightarrow> (c = CHR ''e'' \<or> c = CHR ''E'') \<and> takeWhile is_digit (snd (strip_sign cs)) \<noteq> [])"

text \<open>
  The characters after a literal do not continue it: no digit comes next, no exponent
  part when the literal has none, and after a bare integer no point that is followed by
  a digit or by an exponent part.
\<close>

definition ends_literal :: "decimal_literal \<Rightarrow> string \<Rightarrow> bool" where
  "ends_literal l rest =
     (rest = [] \<or>
      (\<not> is_digit (hd rest) \<and>
       (exponent l = None \<longrightarrow> \<not> starts_exponent rest) \<and>
       (frac_digits l = None \<and> exponent l = None \<and> hd rest = CHR ''.'' \<longrightarrow>
          (tl rest = [] \<or> \<not> is_digit (hd (tl rest))) \<and> \<not> starts_exponent (tl rest))))"

section \<open>Numbers in the normal range\<close>

lemma overflow_lower: "1000000 < overflow_threshold"
  unfolding overflow_threshold_def by simp

lemma underflow_upper: "underflow_threshold < 1 / 1000000"
  unfolding underflow_threshold_def by simp

lemma underflow_pos: "0 < underflow_threshold"
  unfolding underflow_threshold_def by simp

lemma to_number_moderate:
  assumes "1 / 1000000 \<le> m" and "m \<le> 1000000"
  shows "to_number neg m = Fin (if neg then - m else m)"
proof -
  have "m < overflow_threshold"
    using assms(2) overflow_lower by (rule le_less_trans)
  moreover have "underflow_threshold < m"
    using underflow_upper assms(1) by (rule less_le_trans)
  ultimately show ?thesis
    unfolding to_number_def by (simp add: not_le)
qed

lemma to_number_0: "to_number neg 0 = zero neg"
proof -
  have "\<not> overflow_threshold \<le> 0"
    using overflow_lower by simp
  moreover have "0 \<le> underflow_threshold"
    using underflow_pos by simp
  ultimately show ?thesis
    unfolding to_number_def by simp
qed

section \<open>What the parser returns\<close>

lemma foldl_classify_part:
  "foldl classify_part (ns, bad) parts =
     (ns @ map parseFloat (filter isValidNumber parts),
      bad @ filter (\<lambda>p. \<not> isValidNumber p) parts)"
  by (induction parts arbitrary: ns bad) (simp_all add: classify_part_def)

lemma parseInputNumbers_not_string:
  "typeof v \<noteq> ''string'' \<Longrightarrow>
   parseInputNumbers v =
     Inr \<lparr>numbers = [], p_isValid = False, p_error = JStr EMPTY_INPUTS, p_warning = False\<rparr>"
  by (simp add: parseInputNumbers_def)

text \<open>The four outcomes of \<open>parseInputNumbers\<close> on a string, by its tokens.\<close>

lemma parseInputNumbers_string:
  "parseInputNumbers (JStr s) =
     Inr (if tokens s = [] then
            \<lparr>numbers = [], p_isValid = False, p_error = JStr EMPTY_INPUTS, p_warning = False\<rparr>
          else if filter isValidNumber (tokens s) = [] then
            \<lparr>numbers = [], p_isValid = False, p_error = JStr INVALID_INPUT_FORMAT,
             p_warning = False\<rparr>
          else if filter (\<lambda>p. \<not> isValidNumber p) (tokens s) \<noteq> [] then
            \<lparr>numbers = map parseFloat (filter isValidNumber (tokens s)), p_isValid = False,
             p_error = JStr (''Invalid numbers detected: '' @
                            join '', '' (filter (\<lambda>p. \<not> isValidNumber p) (tokens s)) @
                            ''. These will be ignored.''),
             p_warning = True\<rparr>
          else
            \<lparr>numbers = map parseFloat (tokens s), p_isValid = True, p_error = JUndefined,
             p_warning = False\<rparr>)"
proof -
  define parts where "parts = tokens s"
  have split: "filter (\<lambda>s. length s > 0) (map trim (split_comma s)) = parts"
    by (simp add: parts_def tokens_def)
  have all: "filter (\<lambda>p. \<not> isValidNumber p) parts = [] \<Longrightarrow> filter isValidNumber parts = parts"
    by (simp add: filter_empty_conv filter_id_conv)
  have empty: "s = [] \<Longrightarrow> parts = []"
    by (simp add: parts_def tokens_def trim_def)
  show ?thesis
    unfolding parts_def [symmetric] parseInputNumbers_def
    by (simp only: truthy.simps typeof.simps call_split.simps sum.case split Let_def
          foldl_classify_part prod.case append_Nil)
       (auto simp add: all empty)
qed

lemma parseInputNumbers_total: "\<exists>p. parseInputNumbers v = Inr p"
proof (cases v)
  case (JStr s)
  then show ?thesis by (simp add: parseInputNumbers_string)
qed (simp_all add: parseInputNumbers_not_string)

lemma isValidOperationType_string:
  "isValidOperationType (JStr t) = Inr (toLowerCase t \<in> set VALID_OPERATION_TYPES)"
  by (auto simp add: isValidOperationType_def)

lemma isValidOperationType_absent:
  "isValidOperationType JNull = Inr False" "isValidOperationType JUndefined = Inr False"
  by (auto simp add: isValidOperationType_def)

text \<open>Rewrite rules that evaluate the parser and the validators on a concrete input.\<close>

lemmas parse_eval =
  parseFloat_def strip_sign_def is_ws_def is_digit_def parse_exponent_def pow10_def
  digits_val_def digit_val_def to_number_moderate to_number_0 zero_def infinity_def
  isValidNumber_def isNaN_def isFinite_def is_inf_def

lemmas validate_eval =
  validateCalculationInputs_def validateInputField_def parseInputNumbers_string tokens_def
  trim_def fail_with_def isValidOperationType_string VALID_OPERATION_TYPES_def
  toLowerCase_def lower_char_def is_zero_def Let_def char_of_def bit_Suc_0_iff

section \<open>The validators never throw on strings and absent values\<close>

text \<open>
  A method call on a number does throw: the falsy operation type \<open>0\<close> passes the first
  check and reaches \<open>operationType?.toLowerCase()\<close>.
\<close>

lemma validateCalculationInputs_can_throw:
  "validateCalculationInputs (JNum (Fin 0)) (JStr ''1, 2'') = Inl TypeError"
  by (simp add: validate_eval parse_eval)

text \<open>
  Claim C2. For every operation type and operand string that is a string (empty or not),
  \<open>null\<close> or \<open>undefined\<close>, \<open>parseInputNumbers\<close> and \<open>validateCalculationInputs\<close>
  return a result object and raise nothing, and the result is invalid exactly when its
  \<open>errors\<close> array holds an entry.
\<close>

theorem validators_return_structured_result:
  assumes "string_or_absent operationType" and "string_or_absent inputsString"
  shows "(\<exists>p. parseInputNumbers inputsString = Inr p) \<and>
         (\<exists>r. validateCalculationInputs operationType inputsString = Inr r \<and>
              (isValid r \<longleftrightarrow> errors r = []))"
proof -
  obtain p where p: "parseInputNumbers inputsString = Inr p"
    using parseInputNumbers_total by blast
  have "\<exists>r. validateCalculationInputs operationType inputsString = Inr r \<and>
            (isValid r \<longleftrightarrow> errors r = [])"
  proof (cases operationType)
    case JUndefined
    then show ?thesis
      by (simp add: validateCalculationInputs_def p fail_with_def Let_def)
  next
    case JNull
    then show ?thesis
      by (simp add: validateCalculationInputs_def p fail_with_def Let_def)
  next
    case (JStr t)
    then show ?thesis
      by (simp add: validateCalculationInputs_def p fail_with_def Let_def
            isValidOperationType_string)
  next
    case (JBool b)
    with assms(1) show ?thesis by simp
  next
    case (JNum n)
    with assms(1) show ?thesis by simp
  qed
  with p show ?thesis by blast
qed

theorem validators_return_structured_result_witness:
  "(\<exists>p. parseInputNumbers JNull = Inr p) \<and>
   (\<exists>r. validateCalculationInputs (JStr []) JNull = Inr r \<and> (isValid r \<longleftrightarrow> errors r = []))"
  using validators_return_structured_result [of "JStr []" JNull] by simp

section \<open>parseFloat on decimal literals\<close>

lemma takeWhile_digits:
  assumes "list_all is_digit ds" and "r = [] \<or> \<not> is_digit (hd r)"
  shows "takeWhile is_digit (ds @ r) = ds"
proof -
  have "takeWhile is_digit r = []"
    using assms(2) by (cases r) auto
  with assms(1) show ?thesis
    by (simp add: takeWhile_append2 list_all_iff)
qed

lemma dropWhile_digits:
  assumes "list_all is_digit ds" and "r = [] \<or> \<not> is_digit (hd r)"
  shows "dropWhile is_digit (ds @ r) = r"
proof -
  have "dropWhile is_digit r = r"
    using assms(2) by (cases r) auto
  with assms(1) show ?thesis
    by (simp add: dropWhile_append2 list_all_iff)
qed

lemma digit_not_sign:
  "is_digit c \<Longrightarrow>
   c \<noteq> CHR ''-'' \<and> c \<noteq> CHR ''+'' \<and> c \<noteq> CHR ''.'' \<and> c \<noteq> CHR ''e'' \<and> c \<noteq> CHR ''E'' \<and>
   c \<noteq> CHR ''I'' \<and> \<not> is_ws c \<and> c \<noteq> CHR '',''"
  by (auto simp add: is_digit_def is_ws_def)

lemma parse_exponent_none: "\<not> starts_exponent r \<Longrightarrow> parse_exponent r = 0"
  by (cases r) (auto simp add: starts_exponent_def parse_exponent_def Let_def split: prod.splits)

lemma parse_exponent_after:
  assumes "case ex of None \<Rightarrow> True | Some (neg, ds) \<Rightarrow> ds \<noteq> [] \<and> list_all is_digit ds"
    and "rest = [] \<or> \<not> is_digit (hd rest)"
    and "ex = None \<longrightarrow> \<not> starts_exponent rest"
  shows "parse_exponent (exponent_part ex @ rest) = exponent_value ex"
proof (cases ex)
  case None
  with assms(3) show ?thesis
    by (simp add: exponent_part_def exponent_value_def parse_exponent_none)
next
  case (Some p)
  obtain neg ds where p: "p = (neg, ds)" by (cases p)
  from assms(1) Some p have ds: "ds \<noteq> []" "list_all is_digit ds" by simp_all
  from ds obtain d ds' where dd: "ds = d # ds'" "is_digit d" by (cases ds) auto
  have tw: "takeWhile is_digit (ds @ rest) = ds"
    using ds(2) assms(2) by (rule takeWhile_digits)
  show ?thesis
  proof (cases neg)
    case True
    with Some p ds tw show ?thesis
      by (simp add: exponent_part_def exponent_value_def parse_exponent_def strip_sign_def)
  next
    case False
    with Some p ds tw dd digit_not_sign [OF dd(2)] show ?thesis
      by (auto simp add: exponent_part_def exponent_value_def parse_exponent_def strip_sign_def)
  qed
qed

lemma parseFloat_render_rest:
  assumes wf: "well_formed l" and ends: "ends_literal l rest"
  shows "parseFloat (render l @ rest) = to_number (negative l) (lit_value l)"
proof -
  define ip where "ip = int_digits l"
  define fr where "fr = frac_digits l"
  define ex where "ex = exponent l"
  define body where "body = ip @ fraction_part fr @ exponent_part ex @ rest"
  from wf have ip: "ip \<noteq> []" "list_all is_digit ip"
    and fr: "case fr of None \<Rightarrow> True | Some f \<Rightarrow> list_all is_digit f"
    and ex: "case ex of None \<Rightarrow> True | Some (neg, ds) \<Rightarrow> ds \<noteq> [] \<and> list_all is_digit ds"
    by (simp_all add: well_formed_def ip_def fr_def ex_def)
  from ip obtain d ds where dd: "ip = d # ds" "is_digit d"
    by (cases ip) auto
  note d = digit_not_sign [OF dd(2)]
  have nd: "rest = [] \<or> \<not> is_digit (hd rest)"
    using ends by (auto simp add: ends_literal_def)
  have ne: "ex = None \<longrightarrow> \<not> starts_exponent rest"
    using ends by (auto simp add: ends_literal_def ex_def starts_exponent_def)
  have point: "tl rest = [] \<or> \<not> is_digit (hd (tl rest))" "\<not> starts_exponent (tl rest)"
    if "fr = None" "ex = None" "rest \<noteq> []" "hd rest = CHR ''.''"
    using ends that by (auto simp add: ends_literal_def ex_def fr_def)
  have pe: "parse_exponent (exponent_part ex @ rest) = exponent_value ex"
    using ex nd ne by (rule parse_exponent_after)
  have tail: "exponent_part ex @ rest = [] \<or> \<not> is_digit (hd (exponent_part ex @ rest))"
    using nd by (cases ex) (auto simp add: exponent_part_def is_digit_def)
  have sign: "strip_sign (dropWhile is_ws (render l @ rest)) = (negative l, body)"
    using dd d by (simp add: render_def body_def strip_sign_def ip_def fr_def ex_def is_ws_def)
  have inf: "take 8 body \<noteq> ''Infinity''"
    using dd d by (simp add: body_def)
  have parsed: "(let ip' = takeWhile is_digit body;
               r1 = dropWhile is_digit body;
               has_dot = (r1 \<noteq> [] \<and> hd r1 = CHR ''.'');
               fp = (if has_dot then takeWhile is_digit (tl r1) else []);
               r2 = (if has_dot then dropWhile is_digit (tl r1) else r1)
           in if ip' = [] \<and> fp = [] then NaN
              else to_number (negative l)
                     (of_nat (digits_val (ip' @ fp)) * pow10 (parse_exponent r2 - int (length fp)))) =
        to_number (negative l) (lit_value l)"
  proof (cases fr)
    case None
    have r1: "fraction_part fr @ exponent_part ex @ rest = exponent_part ex @ rest"
      using None by (simp add: fraction_part_def)
    have tw: "takeWhile is_digit body = ip" "dropWhile is_digit body = exponent_part ex @ rest"
      unfolding body_def r1 using ip(2) tail
      by (auto intro!: takeWhile_digits dropWhile_digits)
    show ?thesis
    proof (cases "exponent_part ex @ rest \<noteq> [] \<and> hd (exponent_part ex @ rest) = CHR ''.''")
      case False
      then show ?thesis
        using ip(1) None
        by (auto simp add: tw Let_def lit_value_def fraction_digits_def pe
              ip_def [symmetric] fr_def [symmetric] ex_def [symmetric])
    next
      case True
      then have exn: "ex = None"
        by (cases ex) (auto simp add: exponent_part_def)
      with True have rest: "rest \<noteq> []" "hd rest = CHR ''.''"
        by (simp_all add: exponent_part_def)
      note pt = point [OF None exn rest]
      have tw3: "takeWhile is_digit (tl rest) = []" "dropWhile is_digit (tl rest) = tl rest"
        using pt(1) by (cases "tl rest"; simp)+
      show ?thesis
        using ip(1) None exn rest
        by (simp add: tw tw3 Let_def lit_value_def fraction_digits_def exponent_part_def
              exponent_value_def parse_exponent_none [OF pt(2)]
              ip_def [symmetric] fr_def [symmetric] ex_def [symmetric])
    qed
  next
    case (Some f)
    with fr have f: "list_all is_digit f" by simp
    have r1: "fraction_part fr @ exponent_part ex @ rest = CHR ''.'' # f @ exponent_part ex @ rest"
      using Some by (simp add: fraction_part_def)
    have tw: "takeWhile is_digit body = ip"
      "dropWhile is_digit body = CHR ''.'' # f @ exponent_part ex @ rest"
      unfolding body_def r1 using ip(2)
      by (auto intro!: takeWhile_digits dropWhile_digits simp add: is_digit_def)
    have tw2: "takeWhile is_digit (f @ exponent_part ex @ rest) = f"
         "dropWhile is_digit (f @ exponent_part ex @ rest) = exponent_part ex @ rest"
      using f tail by (auto intro!: takeWhile_digits dropWhile_digits)
    show ?thesis
      using ip(1) Some
      by (simp add: tw tw2 Let_def lit_value_def fraction_digits_def pe
            ip_def [symmetric] fr_def [symmetric] ex_def [symmetric])
  qed
  show ?thesis
    unfolding parseFloat_def sign prod.case using inf parsed by simp
qed

lemma below_overflow_valid:
  assumes "m < overflow_threshold"
  shows "\<not> isNaN (to_number neg m) \<and> isFinite (to_number neg m)"
proof -
  from assms have "\<not> overflow_threshold \<le> m"
    by simp
  then show ?thesis
    by (simp add: to_number_def zero_def isNaN_def isFinite_def is_inf_def)
qed

lemma parseFloat_literal:
  assumes "well_formed l"
  shows "parseFloat (render l) = to_number (negative l) (lit_value l)"
  using parseFloat_render_rest [OF assms, of "[]"] by (simp add: ends_literal_def)

lemma moderate_below_overflow: "m \<le> 1000000 \<Longrightarrow> m < overflow_threshold"
  using overflow_lower by simp

lemmas literal_eval =
  well_formed_def render_def lit_value_def fraction_part_def fraction_digits_def
  exponent_part_def exponent_value_def is_digit_def digits_val_def digit_val_def pow10_def

text \<open>
  Claim C6 says that a token in exponential notation is classified as invalid. The
  token \<open>1e-5\<close> is classified as valid and parsed to a number.
\<close>

theorem exponent_token_counterexample:
  "isValidNumber ''1e-5'' \<and>
   parseInputNumbers (JStr ''1e-5'') =
     Inr \<lparr>numbers = [Fin (1 / 100000)], p_isValid = True, p_error = JUndefined,
          p_warning = False\<rparr>"
  by (simp add: parseInputNumbers_string tokens_def trim_def parse_eval)

text \<open>
  Claim C6, amended. Numeric parsing accepts an optional leading minus sign, a decimal
  point and an exponent part: every token \<open>[-]digits[.digits][e[-]digits]\<close> whose
  magnitude is below the overflow threshold is classified as valid and parsed to the
  number it denotes, so a token in exponential notation is accepted.
\<close>

theorem exponent_tokens_accepted:
  assumes "well_formed l" and "lit_value l < overflow_threshold"
  shows "isValidNumber (render l) \<and> parseFloat (render l) = to_number (negative l) (lit_value l)"
proof -
  have "parseFloat (render l @ []) = to_number (negative l) (lit_value l)"
    using assms(1) by (rule parseFloat_render_rest) (simp add: ends_literal_def)
  then show ?thesis
    using below_overflow_valid [OF assms(2)] by (simp add: isValidNumber_def)
qed

theorem exponent_tokens_accepted_witness:
  "isValidNumber ''1e-5'' \<and> parseFloat ''1e-5'' = Fin (1 / 100000)"
proof -
  let ?l = "\<lparr>negative = False, int_digits = ''1'', frac_digits = None,
            exponent = Some (True, ''5'')\<rparr>"
  have wf: "well_formed ?l"
    by (simp add: literal_eval)
  have tok: "render ?l = ''1e-5''"
    by (simp add: literal_eval)
  have val: "lit_value ?l = 1 / 100000"
    by (simp add: literal_eval)
  have range: "lit_value ?l < overflow_threshold"
    unfolding val by (rule moderate_below_overflow) simp
  show ?thesis
    using exponent_tokens_accepted [OF wf range] unfolding tok val
    by (simp add: to_number_moderate)
qed

section \<open>Tokens with a numeric prefix\<close>

lemma split_comma_no_comma: "CHR '','' \<notin> set s \<Longrightarrow> split_comma s = [s]"
  by (induction s) auto

lemma trim_id:
  assumes "s \<noteq> []" and "\<not> is_ws (hd s)" and "\<not> is_ws (last s)"
  shows "trim s = s"
proof -
  have "dropWhile is_ws s = s"
    using assms(1,2) by (cases s) auto
  moreover have "dropWhile is_ws (rev s) = rev s"
  proof (cases "rev s")
    case Nil
    then show ?thesis by simp
  next
    case (Cons c cs)
    then have "last s = c"
      by (metis last_rev list.sel(1) rev_rev_ident hd_rev)
    with assms(3) Cons show ?thesis by simp
  qed
  ultimately show ?thesis
    by (simp add: trim_def)
qed

lemma render_no_comma:
  assumes "well_formed l"
  shows "CHR '','' \<notin> set (render l)"
proof -
  have d: "CHR '','' \<notin> set ds" if "list_all is_digit ds" for ds
  proof
    assume "CHR '','' \<in> set ds"
    with that have "is_digit CHR '',''"
      by (simp add: list_all_iff)
    then show False
      using digit_not_sign by blast
  qed
  from assms show ?thesis
    by (auto simp add: well_formed_def render_def fraction_part_def exponent_part_def
          split: option.splits dest: d)
qed

lemma render_head:
  assumes "well_formed l"
  shows "render l \<noteq> [] \<and> \<not> is_ws (hd (render l))"
proof -
  from assms obtain d ds where "int_digits l = d # ds" "is_digit d"
    by (cases "int_digits l") (auto simp add: well_formed_def)
  then show ?thesis
    by (auto simp add: render_def is_ws_def is_digit_def)
qed

lemma non_numeric_ends_literal:
  assumes "rest \<noteq> []" and "non_numeric (hd rest)"
  shows "ends_literal l rest"
  using assms by (cases rest) (auto simp add: ends_literal_def non_numeric_def starts_exponent_def)

text \<open>
  Claim C10. A token that starts with a decimal literal and goes on with characters that
  do not continue it (as in \<open>5abc\<close>, \<open>10px\<close>, \<open>10em\<close>) is classified as valid and
  parsed to the number of the literal. Alone in the operand string it gives exactly that
  number with no error and no warning; among other tokens its number is in the returned
  numbers and the token is not among the invalid tokens the message lists.
\<close>

theorem numeric_prefix_token_valid:
  assumes wf: "well_formed l" and range: "lit_value l < overflow_threshold"
    and rest: "rest \<noteq> []" "ends_literal l rest"
    and token: "CHR '','' \<notin> set rest" "\<not> is_ws (last rest)"
  shows "isValidNumber (render l @ rest) \<and>
         parseFloat (render l @ rest) = to_number (negative l) (lit_value l) \<and>
         parseInputNumbers (JStr (render l @ rest)) =
           Inr \<lparr>numbers = [to_number (negative l) (lit_value l)], p_isValid = True,
                p_error = JUndefined, p_warning = False\<rparr> \<and>
         (\<forall>s p. render l @ rest \<in> set (tokens s) \<and> parseInputNumbers (JStr s) = Inr p \<longrightarrow>
            to_number (negative l) (lit_value l) \<in> set (numbers p) \<and>
            (p_error p = JUndefined \<or>
             (\<exists>bad. p_error p = JStr (''Invalid numbers detected: '' @ join '', '' bad @
                                      ''. These will be ignored.'') \<and>
                    render l @ rest \<notin> set bad)))"
proof -
  let ?tok = "render l @ rest"
  let ?n = "to_number (negative l) (lit_value l)"
  have pf: "parseFloat ?tok = ?n"
    using wf rest(2) by (rule parseFloat_render_rest)
  have valid: "isValidNumber ?tok"
    using below_overflow_valid [OF range] by (simp add: isValidNumber_def pf)
  have "split_comma ?tok = [?tok]"
    using render_no_comma [OF wf] token(1) by (intro split_comma_no_comma) simp
  moreover have "trim ?tok = ?tok"
    using render_head [OF wf] rest(1) token(2) by (intro trim_id) simp_all
  ultimately have "tokens ?tok = [?tok]"
    using rest(1) by (simp add: tokens_def)
  with valid pf have single: "parseInputNumbers (JStr ?tok) =
           Inr \<lparr>numbers = [?n], p_isValid = True, p_error = JUndefined, p_warning = False\<rparr>"
    by (simp add: parseInputNumbers_string)
  have among: "?n \<in> set (numbers p) \<and>
            (p_error p = JUndefined \<or>
             (\<exists>bad. p_error p = JStr (''Invalid numbers detected: '' @ join '', '' bad @
                                      ''. These will be ignored.'') \<and> ?tok \<notin> set bad))"
    if a: "?tok \<in> set (tokens s) \<and> parseInputNumbers (JStr s) = Inr p" for s p
  proof -
    from a valid have ne: "tokens s \<noteq> []" "filter isValidNumber (tokens s) \<noteq> []"
      by (auto simp add: filter_empty_conv)
    have mem: "?n \<in> set (map parseFloat (filter isValidNumber (tokens s)))"
      using a valid pf by force
    have mem': "?n \<in> set (map parseFloat (tokens s))"
      using a pf by force
    have out: "?tok \<notin> set (filter (\<lambda>p. \<not> isValidNumber p) (tokens s))"
      using valid by simp
    from a ne mem mem' out show ?thesis
      by (auto simp add: parseInputNumbers_string split: if_splits)
  qed
  from valid pf single among show ?thesis
    by blast
qed

theorem numeric_prefix_token_valid_witness:
  "isValidNumber ''5abc'' \<and> parseFloat ''5abc'' = Fin 5 \<and>
   parseInputNumbers (JStr ''5abc'') =
     Inr \<lparr>numbers = [Fin 5], p_isValid = True, p_error = JUndefined, p_warning = False\<rparr> \<and>
   isValidNumber ''10px'' \<and> parseFloat ''10px'' = Fin 10 \<and>
   isValidNumber ''10em'' \<and> parseFloat ''10em'' = Fin 10 \<and>
   isValidNumber ''-2.5east'' \<and> parseFloat ''-2.5east'' = Fin (- (5 / 2))"
proof -
  let ?five = "\<lparr>negative = False, int_digits = ''5'', frac_digits = None, exponent = None\<rparr>"
  let ?ten = "\<lparr>negative = False, int_digits = ''10'', frac_digits = None, exponent = None\<rparr>"
  let ?frac = "\<lparr>negative = True, int_digits = ''2'', frac_digits = Some ''5'', exponent = None\<rparr>"
  have wf: "well_formed ?five" "well_formed ?ten" "well_formed ?frac"
    by (simp_all add: literal_eval)
  have tok: "render ?five = ''5''" "render ?ten = ''10''" "render ?frac = ''-2.5''"
    by (simp_all add: literal_eval)
  have val: "lit_value ?five = 5" "lit_value ?ten = 10" "lit_value ?frac = 5 / 2"
    by (simp_all add: literal_eval)
  have range: "lit_value ?five < overflow_threshold" "lit_value ?ten < overflow_threshold"
    "lit_value ?frac < overflow_threshold"
    unfolding val by (rule moderate_below_overflow, simp)+
  have num: "to_number False 5 = Fin 5" "to_number False 10 = Fin 10"
    "to_number True (5 / 2) = Fin (- (5 / 2))"
    by (simp_all add: to_number_moderate)
  have ends: "ends_literal ?five ''abc''" "ends_literal ?ten ''px''" "ends_literal ?ten ''em''"
    "ends_literal ?frac ''east''"
    by (simp_all add: ends_literal_def starts_exponent_def strip_sign_def is_digit_def)
  have rest: "''abc'' \<noteq> []" "CHR '','' \<notin> set ''abc''" "\<not> is_ws (last ''abc'')"
    "''px'' \<noteq> []" "CHR '','' \<notin> set ''px''" "\<not> is_ws (last ''px'')"
    "''em'' \<noteq> []" "CHR '','' \<notin> set ''em''" "\<not> is_ws (last ''em'')"
    "''east'' \<noteq> []" "CHR '','' \<notin> set ''east''" "\<not> is_ws (last ''east'')"
    by (simp_all add: is_ws_def)
  show ?thesis
    using numeric_prefix_token_valid [OF wf(1) range(1) rest(1) ends(1) rest(2,3)]
      numeric_prefix_token_valid [OF wf(2) range(2) rest(4) ends(2) rest(5,6)]
      numeric_prefix_token_valid [OF wf(2) range(2) rest(7) ends(3) rest(8,9)]
      numeric_prefix_token_valid [OF wf(3) range(3) rest(10) ends(4) rest(11,12)]
    unfolding tok val by (simp add: num)
qed

section \<open>Operation types\<close>

lemma toLowerCase_Nil_iff: "toLowerCase t = [] \<longleftrightarrow> t = []"
  by (simp add: toLowerCase_def)

lemma same_lowercase_same_truthy:
  "toLowerCase t = toLowerCase t' \<Longrightarrow> (t = []) = (t' = [])"
  by (metis toLowerCase_Nil_iff)

lemma opt_toLowerCase_string: "opt_toLowerCase (JStr t) = Inr (JStr (toLowerCase t))"
  by simp

lemma valid_operation_names:
  "set VALID_OPERATION_TYPES = {''addition'', ''subtraction'', ''multiplication'', ''division''}"
  by (simp add: VALID_OPERATION_TYPES_def)

lemma parser_message_not_operation_message:
  assumes "parseInputNumbers inp = Inr p"
  shows "p_error p \<noteq> JStr INVALID_OPERATION \<and> p_error p \<noteq> JStr ''Operation type is required''"
proof (cases inp)
  case (JStr s)
  with assms show ?thesis
    by (auto simp add: parseInputNumbers_string INVALID_OPERATION_def EMPTY_INPUTS_def
          INVALID_INPUT_FORMAT_def split: if_splits)
qed (use assms in \<open>auto simp add: parseInputNumbers_not_string INVALID_OPERATION_def
       EMPTY_INPUTS_def\<close>)

text \<open>
  Claim C7. Operation-type validation is a case-insensitive match against the four names
  addition, subtraction, multiplication and division. Two strings with the same lowercase
  form get the same result. A string whose lowercase form is one of the four names passes
  the operation check, its result carries neither operation message, and with two or more
  accepted operands (and no zero divisor for division) the result is valid with the
  lowercase name as type. A valid result always carries the lowercase form of a
  supported name. Every other string, the empty string, \<open>null\<close> and \<open>undefined\<close> fail
  the check, with the invalid-operation or the required message as first error.
\<close>

theorem operation_type_case_insensitive:
  "(toLowerCase t = toLowerCase t' \<longrightarrow>
      validateCalculationInputs (JStr t) inp = validateCalculationInputs (JStr t') inp) \<and>
   (toLowerCase t \<in> {''addition'', ''subtraction'', ''multiplication'', ''division''} \<longrightarrow>
      isValidOperationType (JStr t) = Inr True \<and>
      (\<forall>r. validateCalculationInputs (JStr t) inp = Inr r \<longrightarrow>
         JStr INVALID_OPERATION \<notin> set (errors r) \<and>
         JStr ''Operation type is required'' \<notin> set (errors r)) \<and>
      (\<forall>p. parseInputNumbers inp = Inr p \<and> p_isValid p \<and> 2 \<le> length (numbers p) \<and>
           (toLowerCase t = ''division'' \<longrightarrow> \<not> list_ex is_zero (tl (numbers p))) \<longrightarrow>
         validateCalculationInputs (JStr t) inp =
           Inr \<lparr>isValid = True, errors = [], warnings = [],
                data = Some \<lparr>data_type = toLowerCase t, data_inputs = numbers p\<rparr>\<rparr>)) \<and>
   (\<forall>r. validateCalculationInputs (JStr t) inp = Inr r \<and> isValid r \<longrightarrow>
      toLowerCase t \<in> {''addition'', ''subtraction'', ''multiplication'', ''division''} \<and>
      (\<exists>ns. data r = Some \<lparr>data_type = toLowerCase t, data_inputs = ns\<rparr>)) \<and>
   (string_or_absent op \<and>
    (\<forall>s. op = JStr s \<longrightarrow>
       toLowerCase s \<notin> {''addition'', ''subtraction'', ''multiplication'', ''division''}) \<longrightarrow>
      isValidOperationType op = Inr False \<and>
      (\<exists>r. validateCalculationInputs op inp = Inr r \<and> \<not> isValid r \<and> data r = None \<and>
           hd (errors r) \<in> {JStr INVALID_OPERATION, JStr ''Operation type is required''}))"
proof -
  obtain p where p: "parseInputNumbers inp = Inr p"
    using parseInputNumbers_total by blast
  note msg = parser_message_not_operation_message [OF p]
  have same: "validateCalculationInputs (JStr t) inp = validateCalculationInputs (JStr t') inp"
    if "toLowerCase t = toLowerCase t'"
    using that same_lowercase_same_truthy [of t t']
    by (simp add: validateCalculationInputs_def isValidOperationType_string p Let_def)
  have accepted: "isValidOperationType (JStr t) = Inr True"
    if "toLowerCase t \<in> {''addition'', ''subtraction'', ''multiplication'', ''division''}"
    using that by (simp add: isValidOperationType_string valid_operation_names)
  have no_message: "JStr INVALID_OPERATION \<notin> set (errors r) \<and>
         JStr ''Operation type is required'' \<notin> set (errors r)"
    if "toLowerCase t \<in> {''addition'', ''subtraction'', ''multiplication'', ''division''}"
      and "validateCalculationInputs (JStr t) inp = Inr r" for r
  proof -
    from that(1) have "t \<noteq> []" by (auto simp add: toLowerCase_def)
    with that msg show ?thesis
      by (auto simp add: validateCalculationInputs_def isValidOperationType_string p
            valid_operation_names fail_with_def Let_def INVALID_OPERATION_def
            INSUFFICIENT_INPUTS_def DIVISION_BY_ZERO_def split: if_splits)
  qed
  have passes: "validateCalculationInputs (JStr t) inp =
           Inr \<lparr>isValid = True, errors = [], warnings = [],
                data = Some \<lparr>data_type = toLowerCase t, data_inputs = numbers q\<rparr>\<rparr>"
    if "toLowerCase t \<in> {''addition'', ''subtraction'', ''multiplication'', ''division''}"
      and "parseInputNumbers inp = Inr q \<and> p_isValid q \<and> 2 \<le> length (numbers q) \<and>
           (toLowerCase t = ''division'' \<longrightarrow> \<not> list_ex is_zero (tl (numbers q)))" for q
  proof -
    from that(1) have t: "t \<noteq> []" by (auto simp add: toLowerCase_def)
    from that(2) p have q: "q = p" by simp
    have w: "p_isValid p \<Longrightarrow> \<not> p_warning p"
      using p by (cases inp) (auto simp add: parseInputNumbers_string
          parseInputNumbers_not_string split: if_splits)
    have d: "drop 1 (numbers p) = tl (numbers p)"
      by (simp add: drop_Suc)
    from that t w show ?thesis
      unfolding q
      by (auto simp add: validateCalculationInputs_def isValidOperationType_string p
            valid_operation_names fail_with_def Let_def d simp del: One_nat_def)
  qed
  have success: "toLowerCase t \<in> {''addition'', ''subtraction'', ''multiplication'', ''division''} \<and>
      (\<exists>ns. data r = Some \<lparr>data_type = toLowerCase t, data_inputs = ns\<rparr>)"
    if "validateCalculationInputs (JStr t) inp = Inr r \<and> isValid r" for r
    using that
    by (auto simp add: validateCalculationInputs_def isValidOperationType_string p fail_with_def
          valid_operation_names Let_def split: if_splits)
  have rejected: "isValidOperationType op = Inr False \<and>
      (\<exists>r. validateCalculationInputs op inp = Inr r \<and> \<not> isValid r \<and> data r = None \<and>
           hd (errors r) \<in> {JStr INVALID_OPERATION, JStr ''Operation type is required''})"
    if a: "string_or_absent op \<and>
    (\<forall>s. op = JStr s \<longrightarrow>
       toLowerCase s \<notin> {''addition'', ''subtraction'', ''multiplication'', ''division''})"
  proof (cases op)
    case (JStr s)
    with a show ?thesis
      by (simp add: validateCalculationInputs_def isValidOperationType_string p fail_with_def
            valid_operation_names Let_def)
  qed (use a in \<open>simp_all add: validateCalculationInputs_def p fail_with_def Let_def
         isValidOperationType_absent\<close>)
  from same accepted no_message passes success rejected show ?thesis
    by blast
qed

lemma two_operands:
  "parseInputNumbers (JStr ''5, 10'') =
     Inr \<lparr>numbers = [Fin 5, Fin 10], p_isValid = True, p_error = JUndefined, p_warning = False\<rparr>"
  by (simp add: parseInputNumbers_string tokens_def trim_def parse_eval)

lemmas lower_eval = toLowerCase_def lower_char_def char_of_def bit_Suc_0_iff

theorem operation_type_case_insensitive_witness:
  "validateCalculationInputs (JStr ''ADDITION'') (JStr ''5, 10'') =
     validateCalculationInputs (JStr ''addition'') (JStr ''5, 10'') \<and>
   validateCalculationInputs (JStr ''Addition'') (JStr ''5, 10'') =
     Inr \<lparr>isValid = True, errors = [], warnings = [],
          data = Some \<lparr>data_type = ''addition'', data_inputs = [Fin 5, Fin 10]\<rparr>\<rparr> \<and>
   validateCalculationInputs (JStr ''SUBTRACTION'') (JStr ''5, 10'') =
     Inr \<lparr>isValid = True, errors = [], warnings = [],
          data = Some \<lparr>data_type = ''subtraction'', data_inputs = [Fin 5, Fin 10]\<rparr>\<rparr> \<and>
   validateCalculationInputs (JStr ''mUlTiPlIcAtIoN'') (JStr ''5, 10'') =
     Inr \<lparr>isValid = True, errors = [], warnings = [],
          data = Some \<lparr>data_type = ''multiplication'', data_inputs = [Fin 5, Fin 10]\<rparr>\<rparr> \<and>
   validateCalculationInputs (JStr ''Division'') (JStr ''5, 10'') =
     Inr \<lparr>isValid = True, errors = [], warnings = [],
          data = Some \<lparr>data_type = ''division'', data_inputs = [Fin 5, Fin 10]\<rparr>\<rparr> \<and>
   (\<exists>r. validateCalculationInputs (JStr ''modulo'') (JStr ''5, 10'') = Inr r \<and> \<not> isValid r \<and>
        data r = None \<and> hd (errors r) = JStr INVALID_OPERATION) \<and>
   (\<exists>r. validateCalculationInputs (JStr []) (JStr ''5, 10'') = Inr r \<and> \<not> isValid r \<and>
        data r = None \<and> hd (errors r) = JStr ''Operation type is required'') \<and>
   (\<exists>r. validateCalculationInputs JNull (JStr ''5, 10'') = Inr r \<and> \<not> isValid r \<and>
        data r = None \<and> hd (errors r) = JStr ''Operation type is required'')"
proof -
  let ?inp = "JStr ''5, 10''"
  let ?p = "\<lparr>numbers = [Fin 5, Fin 10], p_isValid = True, p_error = JUndefined,
            p_warning = False\<rparr>"
  have low: "toLowerCase ''ADDITION'' = ''addition''" "toLowerCase ''addition'' = ''addition''"
    "toLowerCase ''Addition'' = ''addition''" "toLowerCase ''SUBTRACTION'' = ''subtraction''"
    "toLowerCase ''mUlTiPlIcAtIoN'' = ''multiplication''"
    "toLowerCase ''Division'' = ''division''" "toLowerCase ''modulo'' = ''modulo''"
    by (simp_all add: lower_eval)
  have operands: "parseInputNumbers ?inp = Inr ?p \<and> p_isValid ?p \<and> 2 \<le> length (numbers ?p) \<and>
      (x = ''division'' \<longrightarrow> \<not> list_ex is_zero (tl (numbers ?p)))" for x
    by (simp add: two_operands is_zero_def)
  have same: "validateCalculationInputs (JStr ''ADDITION'') ?inp =
     validateCalculationInputs (JStr ''addition'') ?inp"
    using operation_type_case_insensitive [of "''ADDITION''" "''addition''" ?inp JNull]
    by (simp add: low)
  have add: "validateCalculationInputs (JStr ''Addition'') ?inp =
     Inr \<lparr>isValid = True, errors = [], warnings = [],
          data = Some \<lparr>data_type = ''addition'', data_inputs = [Fin 5, Fin 10]\<rparr>\<rparr>"
    using operation_type_case_insensitive [of "''Addition''" "[]" ?inp JNull]
      operands [of "''addition''"]
    by (simp add: low)
  have sub: "validateCalculationInputs (JStr ''SUBTRACTION'') ?inp =
     Inr \<lparr>isValid = True, errors = [], warnings = [],
          data = Some \<lparr>data_type = ''subtraction'', data_inputs = [Fin 5, Fin 10]\<rparr>\<rparr>"
    using operation_type_case_insensitive [of "''SUBTRACTION''" "[]" ?inp JNull]
      operands [of "''subtraction''"]
    by (simp add: low)
  have mul: "validateCalculationInputs (JStr ''mUlTiPlIcAtIoN'') ?inp =
     Inr \<lparr>isValid = True, errors = [], warnings = [],
          data = Some \<lparr>data_type = ''multiplication'', data_inputs = [Fin 5, Fin 10]\<rparr>\<rparr>"
    using operation_type_case_insensitive [of "''mUlTiPlIcAtIoN''" "[]" ?inp JNull]
      operands [of "''multiplication''"]
    by (simp add: low)
  have div: "validateCalculationInputs (JStr ''Division'') ?inp =
     Inr \<lparr>isValid = True, errors = [], warnings = [],
          data = Some \<lparr>data_type = ''division'', data_inputs = [Fin 5, Fin 10]\<rparr>\<rparr>"
    using operation_type_case_insensitive [of "''Division''" "[]" ?inp JNull]
      operands [of "''division''"]
    by (simp add: low)
  have m: "\<exists>r. validateCalculationInputs (JStr ''modulo'') ?inp = Inr r \<and>
        \<not> isValid r \<and> data r = None \<and> hd (errors r) = JStr INVALID_OPERATION"
    using operation_type_case_insensitive [of "[]" "[]" ?inp "JStr ''modulo''"]
    by (auto simp add: low validate_eval parse_eval)
  have e: "\<exists>r. validateCalculationInputs (JStr []) ?inp = Inr r \<and> \<not> isValid r \<and>
        data r = None \<and> hd (errors r) = JStr ''Operation type is required''"
    using operation_type_case_insensitive [of "[]" "[]" ?inp "JStr []"]
    by (auto simp add: validate_eval parse_eval)
  have n: "\<exists>r. validateCalculationInputs JNull ?inp = Inr r \<and> \<not> isValid r \<and>
        data r = None \<and> hd (errors r) = JStr ''Operation type is required''"
    using operation_type_case_insensitive [of "[]" "[]" ?inp JNull]
    by (auto simp add: validate_eval parse_eval)
  from same add sub mul div m e n show ?thesis by blast
qed

section \<open>Operand strings that mix valid and invalid tokens\<close>

lemma mixed_parse:
  assumes "filter isValidNumber (tokens s) \<noteq> []"
    and "filter (\<lambda>p. \<not> isValidNumber p) (tokens s) \<noteq> []"
  shows "parseInputNumbers (JStr s) =
     Inr \<lparr>numbers = map parseFloat (filter isValidNumber (tokens s)), p_isValid = False,
          p_error = JStr (''Invalid numbers detected: '' @
                         join '', '' (filter (\<lambda>p. \<not> isValidNumber p) (tokens s)) @
                         ''. These will be ignored.''),
          p_warning = True\<rparr>"
proof -
  from assms(1) have "tokens s \<noteq> []" by auto
  with assms show ?thesis
    by (simp add: parseInputNumbers_string)
qed

text \<open>
  Claim C1 says that an operand string with at least one valid and at least one invalid
  token validates with a warning. The code rejects every such string: the parser reports
  it as invalid, the validator stores the parser's message as an error, and the branch
  that would push the warning is never reached.
\<close>

theorem mixed_tokens_rejected:
  assumes "string_or_absent operationType"
    and "filter isValidNumber (tokens s) \<noteq> []"
    and "filter (\<lambda>p. \<not> isValidNumber p) (tokens s) \<noteq> []"
  shows "\<exists>r. validateCalculationInputs operationType (JStr s) = Inr r \<and> \<not> isValid r \<and>
             warnings r = [] \<and> data r = None \<and>
             last (errors r) =
               JStr (''Invalid numbers detected: '' @
                     join '', '' (filter (\<lambda>p. \<not> isValidNumber p) (tokens s)) @
                     ''. These will be ignored.'')"
proof (cases operationType)
  case (JStr t)
  then show ?thesis
    by (simp add: validateCalculationInputs_def mixed_parse [OF assms(2,3)] fail_with_def
          Let_def isValidOperationType_string)
qed (use assms(1) in \<open>simp_all add: validateCalculationInputs_def mixed_parse [OF assms(2,3)]
       fail_with_def Let_def\<close>)

lemma tokens_5_abc_10: "tokens ''5, abc, 10'' = [''5'', ''abc'', ''10'']"
  by (simp add: tokens_def trim_def is_ws_def)

theorem mixed_tokens_rejected_witness:
  "\<exists>r. validateCalculationInputs (JStr ''addition'') (JStr ''5, abc, 10'') = Inr r \<and>
       \<not> isValid r \<and> warnings r = [] \<and> data r = None \<and>
       last (errors r) = JStr ''Invalid numbers detected: abc. These will be ignored.''"
proof -
  have valid: "filter isValidNumber (tokens ''5, abc, 10'') = [''5'', ''10'']"
    unfolding tokens_5_abc_10 by (simp add: parse_eval)
  have invalid: "filter (\<lambda>p. \<not> isValidNumber p) (tokens ''5, abc, 10'') = [''abc'']"
    unfolding tokens_5_abc_10 by (simp add: parse_eval)
  have "string_or_absent (JStr ''addition'')" by simp
  moreover have "filter isValidNumber (tokens ''5, abc, 10'') \<noteq> []"
    unfolding valid by simp
  moreover have "filter (\<lambda>p. \<not> isValidNumber p) (tokens ''5, abc, 10'') \<noteq> []"
    unfolding invalid by simp
  ultimately show ?thesis
    using mixed_tokens_rejected [of "JStr ''addition''" "''5, abc, 10''"]
    unfolding invalid by simp
qed

text \<open>The documented scenario \<open>addition\<close>, \<open>5, abc, 10\<close> in full.\<close>

lemma scenario_mixed_tokens:
  "validateCalculationInputs (JStr ''addition'') (JStr ''5, abc, 10'') =
     Inr \<lparr>isValid = False,
          errors = [JStr ''Invalid numbers detected: abc. These will be ignored.''],
          warnings = [], data = None\<rparr>"
  by (simp add: validate_eval parse_eval)

section \<open>The division check\<close>

lemma valid_parse:
  assumes "tokens s \<noteq> []" and "list_all isValidNumber (tokens s)"
  shows "parseInputNumbers (JStr s) =
     Inr \<lparr>numbers = map parseFloat (tokens s), p_isValid = True, p_error = JUndefined,
          p_warning = False\<rparr>"
proof -
  from assms(2) have "filter (\<lambda>p. \<not> isValidNumber p) (tokens s) = []"
    by (simp add: filter_empty_conv list_all_iff)
  moreover from assms have "filter isValidNumber (tokens s) \<noteq> []"
    by (cases "tokens s") simp_all
  ultimately show ?thesis
    using assms(1) by (simp add: parseInputNumbers_string)
qed

text \<open>
  Claim C3 says that for division an operand string that parses to at least two numbers
  fails with the division-by-zero error exactly when a later operand is zero. With an
  invalid token in the string the code never reaches the division check: the result is
  invalid whatever the operands are and the division-by-zero message is not among its
  errors, also when a divisor is zero.
\<close>

theorem zero_divisor_unreported_with_invalid_token:
  assumes "toLowerCase t = ''division''"
    and "filter isValidNumber (tokens s) \<noteq> []"
    and "filter (\<lambda>p. \<not> isValidNumber p) (tokens s) \<noteq> []"
  shows "\<exists>r. validateCalculationInputs (JStr t) (JStr s) = Inr r \<and> \<not> isValid r \<and>
             JStr DIVISION_BY_ZERO \<notin> set (errors r)"
proof -
  from assms(1) have "t \<noteq> []"
    by (auto simp add: toLowerCase_def)
  with assms(1) show ?thesis
    by (simp add: validateCalculationInputs_def mixed_parse [OF assms(2,3)] fail_with_def
          Let_def isValidOperationType_string VALID_OPERATION_TYPES_def DIVISION_BY_ZERO_def)
qed

lemma tokens_5_abc_0: "tokens ''5, abc, 0'' = [''5'', ''abc'', ''0'']"
  by (simp add: tokens_def trim_def is_ws_def)

theorem zero_divisor_unreported_with_invalid_token_witness:
  "parseInputNumbers (JStr ''5, abc, 0'') =
     Inr \<lparr>numbers = [Fin 5, Fin 0], p_isValid = False,
          p_error = JStr ''Invalid numbers detected: abc. These will be ignored.'',
          p_warning = True\<rparr> \<and>
   (\<exists>r. validateCalculationInputs (JStr ''division'') (JStr ''5, abc, 0'') = Inr r \<and>
        \<not> isValid r \<and> JStr DIVISION_BY_ZERO \<notin> set (errors r))"
proof -
  have valid: "filter isValidNumber (tokens ''5, abc, 0'') = [''5'', ''0'']"
    unfolding tokens_5_abc_0 by (simp add: parse_eval)
  have invalid: "filter (\<lambda>p. \<not> isValidNumber p) (tokens ''5, abc, 0'') = [''abc'']"
    unfolding tokens_5_abc_0 by (simp add: parse_eval)
  have nums: "map parseFloat [''5'', ''0''] = [Fin 5, Fin 0]"
    by (simp add: parse_eval)
  have low: "toLowerCase ''division'' = ''division''"
    by (simp add: toLowerCase_def lower_char_def)
  have v: "filter isValidNumber (tokens ''5, abc, 0'') \<noteq> []"
    unfolding valid by simp
  have i: "filter (\<lambda>p. \<not> isValidNumber p) (tokens ''5, abc, 0'') \<noteq> []"
    unfolding invalid by simp
  have "parseInputNumbers (JStr ''5, abc, 0'') =
     Inr \<lparr>numbers = [Fin 5, Fin 0], p_isValid = False,
          p_error = JStr ''Invalid numbers detected: abc. These will be ignored.'',
          p_warning = True\<rparr>"
    unfolding mixed_parse [OF v i] valid invalid nums by simp
  then show ?thesis
    using zero_divisor_unreported_with_invalid_token [OF low v i] by simp
qed

text \<open>
  On an operand string of at least two tokens, all of them valid, the division check
  reports the division-by-zero message exactly when an operand after the first is zero,
  and the result is valid exactly when none is. A zero first operand alone does not fail.
\<close>

theorem division_rule_on_valid_tokens:
  assumes "toLowerCase t = ''division''"
    and "list_all isValidNumber (tokens s)" and "2 \<le> length (tokens s)"
  shows "\<exists>r. validateCalculationInputs (JStr t) (JStr s) = Inr r \<and>
             (JStr DIVISION_BY_ZERO \<in> set (errors r) \<longleftrightarrow>
                list_ex is_zero (tl (map parseFloat (tokens s)))) \<and>
             (isValid r \<longleftrightarrow> \<not> list_ex is_zero (tl (map parseFloat (tokens s))))"
proof -
  from assms(1) have t: "t \<noteq> []"
    by (auto simp add: toLowerCase_def)
  from assms(3) have ne: "tokens s \<noteq> []"
    by auto
  have d: "drop 1 (map parseFloat (tokens s)) = tl (map parseFloat (tokens s))"
    by (simp add: drop_Suc)
  from assms(1,3) t show ?thesis
    by (simp add: validateCalculationInputs_def valid_parse [OF ne assms(2)] fail_with_def
          Let_def isValidOperationType_string VALID_OPERATION_TYPES_def d
          del: One_nat_def drop_map)
qed

lemma tokens_0_2_5: "tokens ''0, 2, 5'' = [''0'', ''2'', ''5'']"
  by (simp add: tokens_def trim_def is_ws_def)

lemma tokens_100_0_5: "tokens ''100, 0, 5'' = [''100'', ''0'', ''5'']"
  by (simp add: tokens_def trim_def is_ws_def)

theorem division_rule_on_valid_tokens_witness:
  "(\<exists>r. validateCalculationInputs (JStr ''division'') (JStr ''0, 2, 5'') = Inr r \<and>
        JStr DIVISION_BY_ZERO \<notin> set (errors r) \<and> isValid r) \<and>
   (\<exists>r. validateCalculationInputs (JStr ''division'') (JStr ''100, 0, 5'') = Inr r \<and>
        JStr DIVISION_BY_ZERO \<in> set (errors r) \<and> \<not> isValid r)"
proof -
  have low: "toLowerCase ''division'' = ''division''"
    by (simp add: toLowerCase_def lower_char_def)
  have a: "list_all isValidNumber (tokens ''0, 2, 5'')" "2 \<le> length (tokens ''0, 2, 5'')"
    unfolding tokens_0_2_5 by (simp_all add: parse_eval)
  have b: "list_all isValidNumber (tokens ''100, 0, 5'')" "2 \<le> length (tokens ''100, 0, 5'')"
    unfolding tokens_100_0_5 by (simp_all add: parse_eval)
  have na: "\<not> list_ex is_zero (tl (map parseFloat (tokens ''0, 2, 5'')))"
    unfolding tokens_0_2_5 by (simp add: parse_eval is_zero_def)
  have nb: "list_ex is_zero (tl (map parseFloat (tokens ''100, 0, 5'')))"
    unfolding tokens_100_0_5 by (simp add: parse_eval is_zero_def)
  show ?thesis
    using division_rule_on_valid_tokens [OF low a] division_rule_on_valid_tokens [OF low b] na nb
    by blast
qed

section \<open>Fewer than two operands\<close>

text \<open>
  Claim C5 says that an operand string with one number fails with the
  insufficient-operands message. With one valid token beside an invalid one the code
  fails with the parser's message instead, and the insufficient-operands message is not
  among the errors.
\<close>

theorem insufficient_unreported_with_invalid_token:
  assumes "string_or_absent operationType"
    and "length (filter isValidNumber (tokens s)) = 1"
    and "filter (\<lambda>p. \<not> isValidNumber p) (tokens s) \<noteq> []"
  shows "\<exists>r. validateCalculationInputs operationType (JStr s) = Inr r \<and> \<not> isValid r \<and>
             JStr INSUFFICIENT_INPUTS \<notin> set (errors r)"
proof -
  from assms(2) have v: "filter isValidNumber (tokens s) \<noteq> []"
    by auto
  show ?thesis
  proof (cases operationType)
    case (JStr t)
    then show ?thesis
      by (simp add: validateCalculationInputs_def mixed_parse [OF v assms(3)] fail_with_def
            Let_def isValidOperationType_string INSUFFICIENT_INPUTS_def INVALID_OPERATION_def)
  qed (use assms(1) in \<open>simp_all add: validateCalculationInputs_def mixed_parse [OF v assms(3)]
         fail_with_def Let_def INSUFFICIENT_INPUTS_def\<close>)
qed

lemma tokens_5_abc: "tokens ''5, abc'' = [''5'', ''abc'']"
  by (simp add: tokens_def trim_def is_ws_def)

theorem insufficient_unreported_with_invalid_token_witness:
  "parseInputNumbers (JStr ''5, abc'') =
     Inr \<lparr>numbers = [Fin 5], p_isValid = False,
          p_error = JStr ''Invalid numbers detected: abc. These will be ignored.'',
          p_warning = True\<rparr> \<and>
   (\<exists>r. validateCalculationInputs (JStr ''addition'') (JStr ''5, abc'') = Inr r \<and>
        \<not> isValid r \<and> JStr INSUFFICIENT_INPUTS \<notin> set (errors r))"
proof -
  have valid: "filter isValidNumber (tokens ''5, abc'') = [''5'']"
    unfolding tokens_5_abc by (simp add: parse_eval)
  have invalid: "filter (\<lambda>p. \<not> isValidNumber p) (tokens ''5, abc'') = [''abc'']"
    unfolding tokens_5_abc by (simp add: parse_eval)
  have nums: "map parseFloat [''5''] = [Fin 5]"
    by (simp add: parse_eval)
  have op: "string_or_absent (JStr ''addition'')"
    by simp
  have v: "filter isValidNumber (tokens ''5, abc'') \<noteq> []"
    unfolding valid by simp
  have one: "length (filter isValidNumber (tokens ''5, abc'')) = 1"
    unfolding valid by simp
  have i: "filter (\<lambda>p. \<not> isValidNumber p) (tokens ''5, abc'') \<noteq> []"
    unfolding invalid by simp
  have "parseInputNumbers (JStr ''5, abc'') =
     Inr \<lparr>numbers = [Fin 5], p_isValid = False,
          p_error = JStr ''Invalid numbers detected: abc. These will be ignored.'',
          p_warning = True\<rparr>"
    unfolding mixed_parse [OF v i] valid invalid nums by simp
  then show ?thesis
    using insufficient_unreported_with_invalid_token [OF op one i] by simp
qed

lemma no_numbers_error:
  assumes "parseInputNumbers inp = Inr p" and "numbers p = []"
  shows "\<not> p_isValid p \<and> p_error p \<in> {JStr EMPTY_INPUTS, JStr INVALID_INPUT_FORMAT}"
proof (cases inp)
  case (JStr s)
  with assms show ?thesis
    by (auto simp add: parseInputNumbers_string split: if_splits)
qed (use assms in \<open>auto simp add: parseInputNumbers_not_string\<close>)

text \<open>
  Whenever the parser returns fewer than two numbers the validation fails, for every
  operation type that is a string or absent: with the insufficient-operands message last
  when the parser accepted the string, with the empty-input or invalid-format message
  last when it found no number.
\<close>

theorem fewer_than_two_numbers_fail:
  assumes "string_or_absent operationType"
    and "parseInputNumbers inp = Inr p" and "length (numbers p) < 2"
  shows "\<exists>r. validateCalculationInputs operationType inp = Inr r \<and> \<not> isValid r \<and>
             (p_isValid p \<longrightarrow> last (errors r) = JStr INSUFFICIENT_INPUTS) \<and>
             (numbers p = [] \<longrightarrow>
                last (errors r) \<in> {JStr EMPTY_INPUTS, JStr INVALID_INPUT_FORMAT})"
proof (cases operationType)
  case (JStr t)
  with assms(3) no_numbers_error [OF assms(2)] show ?thesis
    by (auto simp add: validateCalculationInputs_def assms(2) fail_with_def Let_def
          isValidOperationType_string)
qed (use assms(1,3) no_numbers_error [OF assms(2)] in
      \<open>auto simp add: validateCalculationInputs_def assms(2) fail_with_def Let_def\<close>)

theorem fewer_than_two_numbers_fail_witness:
  "(\<exists>r. validateCalculationInputs (JStr ''multiplication'') (JStr ''5'') = Inr r \<and>
        \<not> isValid r \<and> last (errors r) = JStr INSUFFICIENT_INPUTS) \<and>
   (\<exists>r. validateCalculationInputs JNull (JStr ''abc, def'') = Inr r \<and>
        \<not> isValid r \<and> last (errors r) \<in> {JStr EMPTY_INPUTS, JStr INVALID_INPUT_FORMAT})"
proof -
  have one: "parseInputNumbers (JStr ''5'') =
     Inr \<lparr>numbers = [Fin 5], p_isValid = True, p_error = JUndefined, p_warning = False\<rparr>"
    by (simp add: parseInputNumbers_string tokens_def trim_def parse_eval)
  have none: "parseInputNumbers (JStr ''abc, def'') =
     Inr \<lparr>numbers = [], p_isValid = False, p_error = JStr INVALID_INPUT_FORMAT,
          p_warning = False\<rparr>"
    by (simp add: parseInputNumbers_string tokens_def trim_def parse_eval)
  show ?thesis
    using fewer_than_two_numbers_fail [of "JStr ''multiplication''", OF _ one]
      fewer_than_two_numbers_fail [of JNull, OF _ none]
    by simp
qed

section \<open>The live field validator\<close>

lemma tokens_Nil: "tokens [] = []"
  by (simp add: tokens_def trim_def)

text \<open>
  Claim C9 says that every non-empty field value with fewer than two numbers gets a
  warning and no error. The value \<open>abc\<close> has no number and gets an error.
\<close>

theorem field_no_number_counterexample:
  "validateInputField \<lparr>el_value = ''abc''\<rparr> =
     Inr \<lparr>isValid = False, errors = [JStr INVALID_INPUT_FORMAT], warnings = []\<rparr>"
  by (simp add: validate_eval parse_eval)

text \<open>
  Claim C9, amended. \<open>validateInputField\<close> returns valid with no errors and no warnings
  for an empty or whitespace-only value. For a value whose only token is a valid number
  it returns valid with the one warning \<open>1 number(s) found. At least 2 are required.\<close>
  and no error. For a non-empty value with no valid number it returns invalid with one
  error, the empty-input message when there is no token and the invalid-format message
  otherwise, and no warning.
\<close>

theorem live_field_validator:
  "(trim (el_value e) = [] \<longrightarrow>
      validateInputField e = Inr \<lparr>isValid = True, errors = [], warnings = []\<rparr>) \<and>
   (tokens (trim (el_value e)) = [t] \<and> isValidNumber t \<longrightarrow>
      validateInputField e =
        Inr \<lparr>isValid = True, errors = [],
             warnings = [JStr ''1 number(s) found. At least 2 are required.'']\<rparr>) \<and>
   (trim (el_value e) \<noteq> [] \<and> filter isValidNumber (tokens (trim (el_value e))) = [] \<longrightarrow>
      validateInputField e =
        Inr \<lparr>isValid = False,
             errors = [JStr (if tokens (trim (el_value e)) = [] then EMPTY_INPUTS
                             else INVALID_INPUT_FORMAT)],
             warnings = []\<rparr>)"
proof (intro conjI impI)
  assume "trim (el_value e) = []"
  then show "validateInputField e = Inr \<lparr>isValid = True, errors = [], warnings = []\<rparr>"
    by (simp add: validateInputField_def)
next
  assume a: "tokens (trim (el_value e)) = [t] \<and> isValidNumber t"
  then have "trim (el_value e) \<noteq> []"
    using tokens_Nil by auto
  with a show "validateInputField e =
        Inr \<lparr>isValid = True, errors = [],
             warnings = [JStr ''1 number(s) found. At least 2 are required.'']\<rparr>"
    by (simp add: validateInputField_def parseInputNumbers_string Let_def char_of_def
          bit_Suc_0_iff)
next
  assume "trim (el_value e) \<noteq> [] \<and> filter isValidNumber (tokens (trim (el_value e))) = []"
  then show "validateInputField e =
        Inr \<lparr>isValid = False,
             errors = [JStr (if tokens (trim (el_value e)) = [] then EMPTY_INPUTS
                             else INVALID_INPUT_FORMAT)],
             warnings = []\<rparr>"
    by (simp add: validateInputField_def parseInputNumbers_string Let_def)
qed

theorem live_field_validator_witness:
  "validateInputField \<lparr>el_value = ''  ''\<rparr> =
     Inr \<lparr>isValid = True, errors = [], warnings = []\<rparr> \<and>
   validateInputField \<lparr>el_value = '' 5 ''\<rparr> =
     Inr \<lparr>isValid = True, errors = [],
          warnings = [JStr ''1 number(s) found. At least 2 are required.'']\<rparr> \<and>
   validateInputField \<lparr>el_value = '',''\<rparr> =
     Inr \<lparr>isValid = False, errors = [JStr EMPTY_INPUTS], warnings = []\<rparr>"
proof -
  have blank: "trim (el_value \<lparr>el_value = ''  ''\<rparr>) = []"
    by (simp add: trim_def is_ws_def)
  have five: "tokens (trim (el_value \<lparr>el_value = '' 5 ''\<rparr>)) = [''5''] \<and> isValidNumber ''5''"
    by (simp add: tokens_def trim_def parse_eval)
  have comma: "trim (el_value \<lparr>el_value = '',''\<rparr>) \<noteq> [] \<and>
               filter isValidNumber (tokens (trim (el_value \<lparr>el_value = '',''\<rparr>))) = []"
    by (simp add: tokens_def trim_def is_ws_def)
  have none: "tokens (trim (el_value \<lparr>el_value = '',''\<rparr>)) = []"
    by (simp add: tokens_def trim_def is_ws_def)
  show ?thesis
    using live_field_validator [of "\<lparr>el_value = ''  ''\<rparr>" "[]"]
      live_field_validator [of "\<lparr>el_value = '' 5 ''\<rparr>" "''5''"]
      live_field_validator [of "\<lparr>el_value = '',''\<rparr>" "[]"]
      blank five comma none
    by presburger
qed

section \<open>The evaluator\<close>

lemma reduce_idx_foldl: "reduce_idx (\<lambda>a b i. g a b) acc i xs = foldl g acc xs"
  by (induction xs arbitrary: acc i) simp_all

lemma reduce_idx_after_first:
  "reduce_idx (\<lambda>a b i. if i = 0 then a else g a b) acc (Suc n) xs = foldl g acc xs"
  by (induction xs arbitrary: acc n) simp_all

lemma some_idx_after_first:
  "some_idx (\<lambda>v i. i > 0 \<and> P v) (Suc n) xs = list_ex P xs"
  by (induction xs arbitrary: n) simp_all

text \<open>
  Claim C4. \<open>calculateResult\<close> equals the reference evaluator on the lowercase form of
  the operation type: a left fold of sums from 0, of differences and of quotients from
  the first operand, of products from 1; the division-by-zero string when an operand
  after the first is zero; \<open>null\<close> below two operands or without an operand list; the
  unknown-operation string for any other name and for an absent type.
\<close>

theorem calculateResult_matches_reference:
  "calculateResult (JStr t) (Some xs) = evaluate_spec (toLowerCase t) xs \<and>
   calculateResult type None = JNull \<and>
   calculateResult JNull (Some xs) = (if length xs < 2 then JNull else JStr ''Unknown operation'') \<and>
   calculateResult JUndefined (Some xs) =
     (if length xs < 2 then JNull else JStr ''Unknown operation'')"
proof (intro conjI)
  show "calculateResult (JStr t) (Some xs) = evaluate_spec (toLowerCase t) xs"
  proof (cases xs)
    case Nil
    then show ?thesis
      by (simp add: calculateResult_def evaluate_spec_def)
  next
    case (Cons x rest)
    then show ?thesis
      by (simp add: calculateResult_def evaluate_spec_def reduce_idx_foldl
            reduce_idx_after_first some_idx_after_first)
  qed
qed (simp_all add: calculateResult_def)

lemmas arith_eval =
  jadd_def jsub_def jmul_def jdiv_def isNaN_def is_inf_def is_zero_def to_number_moderate
  to_number_0 zero_def infinity_def

theorem calculateResult_matches_reference_witness:
  "calculateResult (JStr ''Addition'') (Some [Fin 5, Fin 10, Fin 15]) = JNum (Fin 30) \<and>
   calculateResult (JStr ''subtraction'') (Some [Fin 100, Fin 30, Fin 10]) = JNum (Fin 60) \<and>
   calculateResult (JStr ''multiplication'') (Some [Fin 2, Fin 3, Fin 4]) = JNum (Fin 24) \<and>
   calculateResult (JStr ''DIVISION'') (Some [Fin 100, Fin 2, Fin 5]) = JNum (Fin 10) \<and>
   calculateResult (JStr ''division'') (Some [Fin 0, Fin 100, NegZero]) =
     JStr ''Cannot divide by zero'' \<and>
   calculateResult (JStr ''division'') (Some [Fin 0, Fin 100]) = JNum (Fin 0) \<and>
   calculateResult (JStr ''modulo'') (Some [Fin 5, Fin 10]) = JStr ''Unknown operation'' \<and>
   calculateResult (JStr ''addition'') (Some [Fin 5]) = JNull"
proof -
  have low: "toLowerCase ''Addition'' = ''addition''" "toLowerCase ''DIVISION'' = ''division''"
    "toLowerCase ''subtraction'' = ''subtraction''"
    "toLowerCase ''multiplication'' = ''multiplication''"
    "toLowerCase ''division'' = ''division''" "toLowerCase ''modulo'' = ''modulo''"
    "toLowerCase ''addition'' = ''addition''"
    by (simp_all add: toLowerCase_def lower_char_def char_of_def bit_Suc_0_iff)
  have "evaluate_spec ''addition'' [Fin 5, Fin 10, Fin 15] = JNum (Fin 30)"
    "evaluate_spec ''subtraction'' [Fin 100, Fin 30, Fin 10] = JNum (Fin 60)"
    "evaluate_spec ''multiplication'' [Fin 2, Fin 3, Fin 4] = JNum (Fin 24)"
    "evaluate_spec ''division'' [Fin 100, Fin 2, Fin 5] = JNum (Fin 10)"
    "evaluate_spec ''division'' [Fin 0, Fin 100, NegZero] = JStr ''Cannot divide by zero''"
    "evaluate_spec ''division'' [Fin 0, Fin 100] = JNum (Fin 0)"
    "evaluate_spec ''modulo'' [Fin 5, Fin 10] = JStr ''Unknown operation''"
    "evaluate_spec ''addition'' [Fin 5] = JNull"
    by (simp_all add: evaluate_spec_def arith_eval)
  then show ?thesis
    using calculateResult_matches_reference [of "''Addition''" "[Fin 5, Fin 10, Fin 15]"]
      calculateResult_matches_reference [of "''subtraction''" "[Fin 100, Fin 30, Fin 10]"]
      calculateResult_matches_reference [of "''multiplication''" "[Fin 2, Fin 3, Fin 4]"]
      calculateResult_matches_reference [of "''DIVISION''" "[Fin 100, Fin 2, Fin 5]"]
      calculateResult_matches_reference [of "''division''" "[Fin 0, Fin 100, NegZero]"]
      calculateResult_matches_reference [of "''division''" "[Fin 0, Fin 100]"]
      calculateResult_matches_reference [of "''modulo''" "[Fin 5, Fin 10]"]
      calculateResult_matches_reference [of "''addition''" "[Fin 5]"]
    unfolding low by simp
qed

text \<open>A type that is not a string makes the method call fail; the \<open>catch\<close> returns a string.\<close>

lemma calculateResult_catches_type_error:
  "calculateResult (JNum (Fin 1)) (Some [Fin 1, Fin 2]) =
     JStr ''Error: type?.toLowerCase is not a function''"
  by (simp add: calculateResult_def error_message_def)

end
